theory Spec2Isabelle
  imports Main
begin

section \<open>OptimizationJob.cpp: type names and demangling\<close>

text \<open>
  The file has two bodies for \<^verbatim>\<open>OptimizationJob::demangle\<close>, selected at compile time
  by \<^verbatim>\<open>#ifdef __GNUG__\<close>. The toolchain is therefore an input of the model.
\<close>

datatype toolchain = GNUG | Other

text \<open>
  \<^verbatim>\<open>abi::__cxa_demangle(name, NULL, NULL, &status)\<close> belongs to the C++ runtime library,
  not to this repository, so it is a parameter: for a type name it gives the returned
  buffer (\<open>None\<close> for a null pointer) and the value it stores into \<^verbatim>\<open>status\<close>.
\<close>

type_synonym cxa_demangle = "string \<Rightarrow> string option \<times> int"

text \<open>
  The library documents that status 0 means success and that the result is a null pointer
  when demangling fails. Only the first half matters to the caller.
\<close>

definition abi_conforming :: "cxa_demangle \<Rightarrow> bool" where
  "abi_conforming cxa = (\<forall>name. snd (cxa name) = 0 \<longrightarrow> fst (cxa name) \<noteq> None)"

text \<open>
  What the source leaves undefined: a \<^verbatim>\<open>std::string\<close> built from a null \<^verbatim>\<open>char*\<close>, and
  \<^verbatim>\<open>*p.get()\<close> on an empty pointer.
\<close>

datatype fault = NullString | NullHandle

text \<open>
  \<^verbatim>\<open>
  std::string demangle(const char* name) {            // #ifdef __GNUG__
      int status = -4;
      std::unique_ptr<char, void(*)(void*)> res { abi::__cxa_demangle(name, NULL, NULL, &status), std::free };
      return (status==0) ? res.get() : name ;
  }
  std::string demangle(const char* name) { return name; }   // #else
  \<close>
  The initial \<^verbatim>\<open>-4\<close> is never read: the library stores a status on every call.
\<close>

definition demangle :: "toolchain \<Rightarrow> cxa_demangle \<Rightarrow> string \<Rightarrow> fault + string" where
  "demangle tc cxa name =
     (case tc of
        GNUG \<Rightarrow>
          (case cxa name of
             (res, status) \<Rightarrow>
               if status = 0
               then (case res of Some s \<Rightarrow> Inr s | None \<Rightarrow> Inl NullString)
               else Inr name)
      | Other \<Rightarrow> Inr name)"

text \<open>
  A finite sample of the library function's behaviour on the Itanium encoding
  (\<^verbatim>\<open><length><identifier>\<close> for a class at namespace scope), used where a concrete
  instance of the parameter is needed. Status \<open>-2\<close> is the library's "not a valid
  mangled name".
\<close>

definition sample_cxa :: cxa_demangle where
  "sample_cxa name =
     (if name = ''12AckleyTarget'' then (Some ''AckleyTarget'', 0)
      else if name = ''9ClassicSA'' then (Some ''ClassicSA'', 0)
      else if name = ''6Target'' then (Some ''Target'', 0)
      else if name = ''12Optimization'' then (Some ''Optimization'', 0)
      else (None, -2))"

section \<open>Objects, handles and the class files of a job\<close>

text \<open>
  \<^verbatim>\<open>OptimizationJob.h\<close>, \<^verbatim>\<open>Target.h\<close> and the strategy's header are not among the
  sources, so what they declare is a parameter, over a type \<open>'c\<close> of classes:
  the declared pointee types of the members \<^verbatim>\<open>target\<close> and \<^verbatim>\<open>optimization\<close>, which
  classes are polymorphic (have a virtual member), and the implementation-defined string
  that \<^verbatim>\<open>typeid(...).name()\<close> gives for a class.
\<close>

record 'c declarations =
  target_type :: 'c
  optimization_type :: 'c
  polymorphic :: "'c \<Rightarrow> bool"
  typeid_name :: "'c \<Rightarrow> string"

text \<open>
  An object carries its most derived class and its data members. A handle is the smart
  pointer \<^verbatim>\<open>.get()\<close> is called on: empty, or pointing to an object.
\<close>

record ('c, 'd) object =
  most_derived :: 'c
  members :: 'd

type_synonym ('c, 'd) handle = "('c, 'd) object option"

record ('c, 'd) OptimizationJob =
  target :: "('c, 'd) handle"
  optimization :: "('c, 'd) handle"

text \<open>
  The language's \<^verbatim>\<open>typeid(t)\<close> for \<^verbatim>\<open>const T& t\<close>: the most derived class of the
  object \<^verbatim>\<open>t\<close> refers to when \<^verbatim>\<open>T\<close> is polymorphic, and \<^verbatim>\<open>T\<close> itself otherwise.
\<close>

definition typeid :: "'c declarations \<Rightarrow> 'c \<Rightarrow> ('c, 'd) object \<Rightarrow> 'c" where
  "typeid ds T t = (if polymorphic ds T then most_derived t else T)"

text \<open>
  Modelled from the spec: the helper \<^verbatim>\<open>type\<close> that \<^verbatim>\<open>getTargetClassFile\<close> and
  \<^verbatim>\<open>getOptClassFile\<close> call is declared in \<^verbatim>\<open>OptimizationJob.h\<close>, which is missing.
  The spec (section 4.1) says that type identity is determined by runtime type
  introspection of the object behind the polymorphic handle and that the
  platform-specific type name is demangled before lookup:
  \<^verbatim>\<open>template <class T> std::string type(const T& t) { return demangle(typeid(t).name()); }\<close>
\<close>

definition type :: "toolchain \<Rightarrow> cxa_demangle \<Rightarrow> 'c declarations \<Rightarrow> 'c \<Rightarrow> ('c, 'd) object
    \<Rightarrow> fault + string" where
  "type tc cxa ds T t = demangle tc cxa (typeid_name ds (typeid ds T t))"

text \<open>
  \<^verbatim>\<open>
  std::string OptimizationJob::getTargetClassFile() { return type(*target.get()); }
  std::string OptimizationJob::getOptClassFile()    { return type(*optimization.get()); }
  \<close>
\<close>

definition getTargetClassFile ::
    "toolchain \<Rightarrow> cxa_demangle \<Rightarrow> 'c declarations \<Rightarrow> ('c, 'd) OptimizationJob \<Rightarrow> fault + string" where
  "getTargetClassFile tc cxa ds job =
     (case target job of
        None \<Rightarrow> Inl NullHandle
      | Some t \<Rightarrow> type tc cxa ds (target_type ds) t)"

definition getOptClassFile ::
    "toolchain \<Rightarrow> cxa_demangle \<Rightarrow> 'c declarations \<Rightarrow> ('c, 'd) OptimizationJob \<Rightarrow> fault + string" where
  "getOptClassFile tc cxa ds job =
     (case optimization job of
        None \<Rightarrow> Inl NullHandle
      | Some t \<Rightarrow> type tc cxa ds (optimization_type ds) t)"

text \<open>
  A concrete class table for the scenario of the spec (section 8): \<^verbatim>\<open>AckleyTarget\<close>
  derives from \<^verbatim>\<open>Target\<close>, \<^verbatim>\<open>ClassicSA\<close> from \<^verbatim>\<open>Optimization\<close>; names are encoded
  as the Itanium ABI does.
\<close>

datatype sample_class = Target | AckleyTarget | Optimization | ClassicSA

definition sample_name :: "sample_class \<Rightarrow> string" where
  "sample_name c =
     (case c of Target \<Rightarrow> ''6Target'' | AckleyTarget \<Rightarrow> ''12AckleyTarget''
      | Optimization \<Rightarrow> ''12Optimization'' | ClassicSA \<Rightarrow> ''9ClassicSA'')"

definition sample_decls :: "sample_class declarations" where
  "sample_decls =
     \<lparr>target_type = Target, optimization_type = Optimization,
      polymorphic = (\<lambda>_. True), typeid_name = sample_name\<rparr>"

definition sample_job :: "(sample_class, nat) OptimizationJob" where
  "sample_job =
     \<lparr>target = Some \<lparr>most_derived = AckleyTarget, members = 0\<rparr>,
      optimization = Some \<lparr>most_derived = ClassicSA, members = 0\<rparr>\<rparr>"

definition sample_job2 :: "(sample_class, nat) OptimizationJob" where
  "sample_job2 =
     \<lparr>target = Some \<lparr>most_derived = AckleyTarget, members = 7\<rparr>,
      optimization = Some \<lparr>most_derived = ClassicSA, members = 9\<rparr>\<rparr>"

section \<open>CSAOptManager.h: the manager and its single instance\<close>

text \<open>
  The types of the members that come from headers outside the sources are opaque.
\<close>

typedecl logger
typedecl AWSTools
typedecl AnsibleTools
typedecl ManagedModel

record ('c, 'd) CSAOptManager =
  logger :: "logger option"
  jobCache :: "string \<rightharpoonup> ('c, 'd) OptimizationJob"
  awsTools :: "AWSTools option"
  ansibleTools :: "AnsibleTools option"
  loadedModels :: "string \<rightharpoonup> ManagedModel"

text \<open>
  The private constructor: \<^verbatim>\<open>this->logger = spdlog::get(Config::loggerName());\<close>
  every other member is default-initialised. What the logging library's registry
  returns is a parameter.
\<close>

definition construct :: "logger option \<Rightarrow> ('c, 'd) CSAOptManager" where
  "construct registered =
     \<lparr>logger = registered, jobCache = Map.empty, awsTools = None,
      ansibleTools = None, loadedModels = Map.empty\<rparr>"

text \<open>
  The process: the manager objects that exist, by address, and the function-local
  \<^verbatim>\<open>static CSAOptManager instance\<close> of \<^verbatim>\<open>getInstance\<close>, which holds no object until
  control first passes through its declaration. \<open>next_address\<close> is the next unused
  address.
\<close>

record ('c, 'd) process =
  managers :: "nat \<rightharpoonup> ('c, 'd) CSAOptManager"
  static_instance :: "nat option"
  next_address :: nat

definition startup :: "('c, 'd) process" where
  "startup = \<lparr>managers = Map.empty, static_instance = None, next_address = 0\<rparr>"

text \<open>
  \<^verbatim>\<open>
  static CSAOptManager& getInstance() {
      static CSAOptManager instance; // Guaranteed to be destroyed.
      // Instantiated on first usee.
      return instance;
  }
  \<close>
  The result is the reference returned (an address) and the process afterwards.
\<close>

definition getInstance :: "logger option \<Rightarrow> ('c, 'd) process \<Rightarrow> nat \<times> ('c, 'd) process" where
  "getInstance registered p =
     (case static_instance p of
        Some a \<Rightarrow> (a, p)
      | None \<Rightarrow>
          (let a = next_address p in
           (a, p\<lparr>managers := (managers p)(a \<mapsto> construct registered),
                 static_instance := Some a,
                 next_address := Suc a\<rparr>)))"

text \<open>
  The special member functions of the class, as the header declares them:
  \<^verbatim>\<open>
  private:
      CSAOptManager() { this->logger = spdlog::get(Config::loggerName()); };
      CSAOptManager(CSAOptManager const&)  = delete;
      void operator=(CSAOptManager const&) = delete;
      ~CSAOptManager() { }
  \<close>
\<close>

datatype special_member = DefaultConstructor | CopyConstructor | CopyAssignment | Destructor

datatype availability = Public | Private | Deleted

fun declared :: "special_member \<Rightarrow> availability" where
  "declared DefaultConstructor = Private"
| "declared CopyConstructor = Deleted"
| "declared CopyAssignment = Deleted"
| "declared Destructor = Private"

text \<open>
  What code outside the class can try to do with managers: call \<^verbatim>\<open>getInstance\<close>;
  change the members of the manager behind a reference (through the public member
  functions, whose bodies are not among the sources and are taken to change members
  only); define a manager of its own; copy-construct one from a reference; assign one
  manager to another; destroy one.
\<close>

datatype ('c, 'd) action =
    GetInstance
  | Mutate nat "('c, 'd) CSAOptManager \<Rightarrow> ('c, 'd) CSAOptManager"
  | Construct
  | CopyConstruct nat
  | CopyAssign nat nat
  | Destroy nat

text \<open>
  The special member an action needs, and whether the action compiles: a private or a
  deleted member cannot be used outside the class.
\<close>

fun needs :: "('c, 'd) action \<Rightarrow> special_member option" where
  "needs GetInstance = None"
| "needs (Mutate a f) = None"
| "needs Construct = Some DefaultConstructor"
| "needs (CopyConstruct a) = Some CopyConstructor"
| "needs (CopyAssign a b) = Some CopyAssignment"
| "needs (Destroy a) = Some Destructor"

definition compiles :: "('c, 'd) action \<Rightarrow> bool" where
  "compiles act = (case needs act of None \<Rightarrow> True | Some m \<Rightarrow> declared m = Public)"

text \<open>
  What each action does to the process. For the actions that need a special member this
  is what the member would do were it available: construction and copy construction make
  a further manager, assignment overwrites one manager with another, destruction removes
  one.
\<close>

fun perform :: "logger option \<Rightarrow> ('c, 'd) action \<Rightarrow> ('c, 'd) process \<Rightarrow> ('c, 'd) process" where
  "perform registered GetInstance p = snd (getInstance registered p)"
| "perform registered (Mutate a f) p =
     (case managers p a of
        None \<Rightarrow> p
      | Some m \<Rightarrow> p\<lparr>managers := (managers p)(a \<mapsto> f m)\<rparr>)"
| "perform registered Construct p =
     p\<lparr>managers := (managers p)(next_address p \<mapsto> construct registered),
       next_address := Suc (next_address p)\<rparr>"
| "perform registered (CopyConstruct a) p =
     (case managers p a of
        None \<Rightarrow> p
      | Some m \<Rightarrow> p\<lparr>managers := (managers p)(next_address p \<mapsto> m),
                     next_address := Suc (next_address p)\<rparr>)"
| "perform registered (CopyAssign a b) p =
     (case managers p a of
        None \<Rightarrow> p
      | Some m \<Rightarrow>
          (case managers p b of
             None \<Rightarrow> p
           | Some m' \<Rightarrow> p\<lparr>managers := (managers p)(a \<mapsto> m')\<rparr>))"
| "perform registered (Destroy a) p = p\<lparr>managers := (managers p)(a := None)\<rparr>"

fun perform_all :: "logger option \<Rightarrow> ('c, 'd) action list \<Rightarrow> ('c, 'd) process \<Rightarrow> ('c, 'd) process" where
  "perform_all registered [] p = p"
| "perform_all registered (a # as) p = perform_all registered as (perform registered a p)"

text \<open>The references that the calls of \<^verbatim>\<open>getInstance\<close> in a run return, in order.\<close>

fun returned :: "logger option \<Rightarrow> ('c, 'd) action list \<Rightarrow> ('c, 'd) process \<Rightarrow> nat list" where
  "returned registered [] p = []"
| "returned registered (GetInstance # as) p =
     fst (getInstance registered p) # returned registered as (perform registered GetInstance p)"
| "returned registered (a # as) p = returned registered as (perform registered a p)"

text \<open>
  What a program that holds the reference \<open>a\<close> expects to find behind it after each
  action, told without the process: the first call of \<^verbatim>\<open>getInstance\<close> constructs the
  manager, a later call leaves it as it is, and a change through \<open>a\<close> is applied to it.
\<close>

fun observe :: "logger option \<Rightarrow> nat \<Rightarrow> ('c, 'd) action \<Rightarrow> ('c, 'd) CSAOptManager option
    \<Rightarrow> ('c, 'd) CSAOptManager option" where
  "observe registered a GetInstance m =
     Some (case m of None \<Rightarrow> construct registered | Some x \<Rightarrow> x)"
| "observe registered a (Mutate b f) m = (if b = a then map_option f m else m)"
| "observe registered a _ m = m"

fun replay :: "logger option \<Rightarrow> nat \<Rightarrow> ('c, 'd) action list \<Rightarrow> ('c, 'd) CSAOptManager option
    \<Rightarrow> ('c, 'd) CSAOptManager option" where
  "replay registered a [] m = m"
| "replay registered a (act # acts) m = replay registered a acts (observe registered a act m)"

text \<open>
  The invariant of the process: before the first call there is no manager at all;
  afterwards the local static names the one manager that exists.
\<close>

definition single :: "('c, 'd) process \<Rightarrow> bool" where
  "single p =
     (case static_instance p of
        None \<Rightarrow> managers p = Map.empty
      | Some a \<Rightarrow> dom (managers p) = {a})"

text \<open>The address at which the instance lives, or will live once it is constructed.\<close>

definition home :: "('c, 'd) process \<Rightarrow> nat" where
  "home p = (case static_instance p of None \<Rightarrow> next_address p | Some a \<Rightarrow> a)"

definition sample_actions :: "(sample_class, nat) action list" where
  "sample_actions =
     [GetInstance,
      Mutate 0 (\<lambda>m. m\<lparr>jobCache := (jobCache m)(''job-7'' \<mapsto> sample_job)\<rparr>),
      GetInstance]"

section \<open>The lifecycle of a job\<close>

text \<open>
  Modelled from the spec: \<^verbatim>\<open>CSAOptManager.cpp\<close>, with the bodies of \<^verbatim>\<open>run\<close> and
  \<^verbatim>\<open>abort\<close>, is missing; the header only declares them and the member \<^verbatim>\<open>jobCache\<close>,
  and no source file declares a status. The definitions of this section follow
  sections 3, 4.5, 4.6 and 7 of the spec. Only the status and the failure reason of a job
  are modelled; the result log is left out.
\<close>

text \<open>Modelled from the spec: the states of section 4.5.\<close>

datatype Status =
  Pending | Resolving | Provisioning | Deploying | Running | Completed | Failed | Aborted

text \<open>Modelled from the spec: the terminal states of section 4.5.\<close>

fun terminal :: "Status \<Rightarrow> bool" where
  "terminal Completed = True"
| "terminal Failed = True"
| "terminal Aborted = True"
| "terminal _ = False"

text \<open>
  Modelled from the spec: the position of a state along the state line of section 4.5,
  \<^verbatim>\<open>Pending -> Resolving -> Provisioning -> Deploying -> Running -> {Completed | Failed | Aborted}\<close>.
\<close>

fun stage :: "Status \<Rightarrow> nat" where
  "stage Pending = 0"
| "stage Resolving = 1"
| "stage Provisioning = 2"
| "stage Deploying = 3"
| "stage Running = 4"
| "stage Completed = 5"
| "stage Failed = 5"
| "stage Aborted = 5"

text \<open>Modelled from the spec: the errors of section 7 that the lifecycle meets.\<close>

datatype Error =
    UnresolvedTypeError | ProvisioningError | DeploymentError
  | DuplicateIdError | NotFoundError

text \<open>
  Modelled from the spec: what the routine driving a job learns from its collaborators: the resolver's answer,
  the provisioning gateway's, the deployment gateway's on \<^verbatim>\<open>deploy\<close>, and on each
  \<^verbatim>\<open>poll\<close> either new results (zero or more), a failure or completion.
\<close>

datatype Outcome =
    ArtifactResolved | ResolveFailed
  | ResourceAcquired | AcquireFailed
  | DeploymentAccepted | DeployFailed
  | PollResults | PollFailed | RemoteCompleted

text \<open>
  Modelled from the spec: section 4.5, transition by transition, each with the failure reason it records.
  \<^verbatim>\<open>Running -> Failed\<close> is an edge of the state line there; its trigger is the
  \<^verbatim>\<open>DeploymentError\<close> that \<^verbatim>\<open>poll\<close> may answer with (sections 4.4 and 7). An
  outcome that does not belong to the state changes nothing.
\<close>

fun transition :: "Status \<Rightarrow> Outcome \<Rightarrow> (Status \<times> Error option) option" where
  "transition Resolving ArtifactResolved = Some (Provisioning, None)"
| "transition Resolving ResolveFailed = Some (Failed, Some UnresolvedTypeError)"
| "transition Provisioning ResourceAcquired = Some (Deploying, None)"
| "transition Provisioning AcquireFailed = Some (Failed, Some ProvisioningError)"
| "transition Deploying DeploymentAccepted = Some (Running, None)"
| "transition Deploying DeployFailed = Some (Failed, Some DeploymentError)"
| "transition Running PollResults = Some (Running, None)"
| "transition Running PollFailed = Some (Failed, Some DeploymentError)"
| "transition Running RemoteCompleted = Some (Completed, None)"
| "transition _ _ = None"

text \<open>
  Modelled from the spec: the status and the optional failure reason of a job
  (section 3), and the table of jobs keyed by job identifier.
\<close>

record Job =
  status :: Status
  failure_reason :: "Error option"

type_synonym JobStore = "string \<rightharpoonup> Job"

text \<open>
  Modelled from the spec: \<^verbatim>\<open>submit(job) -> ok | DuplicateIdError\<close>. A job is \<^verbatim>\<open>Pending\<close> until it is
  submitted, and \<^verbatim>\<open>Pending -> Resolving\<close> happens on submission, before any external
  call.
\<close>

definition staged :: Job where
  "staged = \<lparr>status = Pending, failure_reason = None\<rparr>"

definition submit :: "JobStore \<Rightarrow> string \<Rightarrow> Error + JobStore" where
  "submit store jobId =
     (case store jobId of
        Some j \<Rightarrow> Inl DuplicateIdError
      | None \<Rightarrow> Inr (store(jobId \<mapsto> staged\<lparr>status := Resolving\<rparr>)))"

text \<open>
  Modelled from the spec: one step of the routine that drives a job. It applies an
  outcome to the job; an unknown job id is rejected with \<^verbatim>\<open>NotFoundError\<close>.
\<close>

definition drive :: "JobStore \<Rightarrow> string \<Rightarrow> Outcome \<Rightarrow> Error + JobStore" where
  "drive store jobId outcome =
     (case store jobId of
        None \<Rightarrow> Inl NotFoundError
      | Some j \<Rightarrow>
          (case transition (status j) outcome of
             None \<Rightarrow> Inr store
           | Some (st, why) \<Rightarrow>
               Inr (store(jobId \<mapsto> j\<lparr>status := st, failure_reason := why\<rparr>))))"

text \<open>
  Modelled from the spec: \<^verbatim>\<open>* -> Aborted\<close>, an explicit abort request from any non-terminal state. A terminal
  job stays as it is.
\<close>

definition abort :: "JobStore \<Rightarrow> string \<Rightarrow> Error + JobStore" where
  "abort store jobId =
     (case store jobId of
        None \<Rightarrow> Inl NotFoundError
      | Some j \<Rightarrow>
          if terminal (status j) then Inr store
          else Inr (store(jobId \<mapsto> j\<lparr>status := Aborted\<rparr>)))"

text \<open>
  Modelled from the spec: the requests that reach the store, and what each does to it. A rejected request
  leaves the store as it was (section 7: rejected synchronously, no state mutated).
\<close>

datatype request =
    Submit string
  | Drive string Outcome
  | Abort string

fun attempt :: "request \<Rightarrow> JobStore \<Rightarrow> Error + JobStore" where
  "attempt (Submit jobId) store = submit store jobId"
| "attempt (Drive jobId outcome) store = drive store jobId outcome"
| "attempt (Abort jobId) store = abort store jobId"

definition serve :: "request \<Rightarrow> JobStore \<Rightarrow> JobStore" where
  "serve r store = (case attempt r store of Inl e \<Rightarrow> store | Inr store' \<Rightarrow> store')"

fun serve_all :: "request list \<Rightarrow> JobStore \<Rightarrow> JobStore" where
  "serve_all [] store = store"
| "serve_all (r # rs) store = serve_all rs (serve r store)"

definition sample_later :: "request list" where
  "sample_later = [Drive ''job-7'' ResourceAcquired, Abort ''job-7'', Drive ''job-7'' PollResults]"

section \<open>Helper lemmas\<close>

lemma sample_cxa_conforming: "abi_conforming sample_cxa"
  by (simp add: abi_conforming_def sample_cxa_def)

lemma demangle_Other [simp]: "demangle Other cxa name = Inr name"
  by (simp add: demangle_def)

lemma demangle_GNUG_failed:
  "snd (cxa name) \<noteq> 0 \<Longrightarrow> demangle GNUG cxa name = Inr name"
  by (cases "cxa name") (simp add: demangle_def)

lemma demangle_GNUG_ok:
  "cxa name = (Some s, 0) \<Longrightarrow> demangle GNUG cxa name = Inr s"
  by (simp add: demangle_def)

subsection \<open>The single instance\<close>

lemma single_startup: "single startup"
  by (simp add: single_def startup_def)

lemma home_startup: "home startup = 0" "managers startup 0 = None"
  by (simp_all add: home_def startup_def)

lemma startup_static: "static_instance startup = None"
  by (simp add: startup_def)

lemma compiles_cases:
  "compiles act \<Longrightarrow> act = GetInstance \<or> (\<exists>b f. act = Mutate b f)"
  by (cases act) (simp_all add: compiles_def)

text \<open>A call on a process whose local static is initialised changes nothing.\<close>

lemma getInstance_again:
  "static_instance p = Some a \<Longrightarrow> getInstance reg p = (a, p)"
  by (simp add: getInstance_def)

text \<open>One action that compiles keeps the invariant and does what \<open>observe\<close> tells.\<close>

lemma perform_step:
  assumes "single p" and "compiles act"
  shows "single (perform reg act p)
       \<and> home (perform reg act p) = home p
       \<and> managers (perform reg act p) (home p) = observe reg (home p) act (managers p (home p))
       \<and> (static_instance (perform reg act p) = None
            \<longleftrightarrow> static_instance p = None \<and> act \<noteq> GetInstance)
       \<and> (act = GetInstance \<longrightarrow> fst (getInstance reg p) = home p)"
proof (cases "static_instance p")
  case None
  with assms(1) have e: "managers p = Map.empty" by (simp add: single_def)
  from compiles_cases [OF assms(2)] show ?thesis
  proof (elim disjE exE)
    assume "act = GetInstance"
    with None e show ?thesis
      by (simp add: getInstance_def single_def home_def Let_def)
  next
    fix b f assume "act = Mutate b f"
    with None e assms(1) show ?thesis
      by (simp add: home_def)
  qed
next
  case (Some a)
  with assms(1) have d: "dom (managers p) = {a}" by (simp add: single_def)
  then obtain m where m: "managers p a = Some m" by blast
  from compiles_cases [OF assms(2)] show ?thesis
  proof (elim disjE exE)
    assume "act = GetInstance"
    with Some assms(1) m show ?thesis
      by (simp add: getInstance_def home_def)
  next
    fix b f assume act: "act = Mutate b f"
    show ?thesis
    proof (cases "managers p b")
      case None
      with d m have "b \<noteq> a" by auto
      with act None Some assms(1) show ?thesis by (simp add: home_def)
    next
      case (Some x)
      with d have "b = a" by blast
      with act Some m \<open>static_instance p = Some a\<close> d show ?thesis
        by (simp add: home_def single_def)
    qed
  qed
qed

text \<open>The same for a run of actions, by induction on the run.\<close>

lemma perform_all_steps:
  assumes "single p" and "list_all compiles acts"
  shows "single (perform_all reg acts p)
       \<and> home (perform_all reg acts p) = home p
       \<and> managers (perform_all reg acts p) (home p) = replay reg (home p) acts (managers p (home p))
       \<and> (static_instance (perform_all reg acts p) = None
            \<longleftrightarrow> static_instance p = None \<and> GetInstance \<notin> set acts)
       \<and> set (returned reg acts p) \<subseteq> (if GetInstance \<in> set acts then {home p} else {})"
  using assms
proof (induction acts arbitrary: p)
  case Nil
  then show ?case by simp
next
  case (Cons act acts)
  from Cons.prems have c: "compiles act" and cs: "list_all compiles acts" by simp_all
  let ?q = "perform reg act p"
  from perform_step [OF Cons.prems(1) c, of reg]
  have s: "single ?q" and h: "home ?q = home p"
    and m: "managers ?q (home p) = observe reg (home p) act (managers p (home p))"
    and n: "static_instance ?q = None \<longleftrightarrow> static_instance p = None \<and> act \<noteq> GetInstance"
    and g: "act = GetInstance \<longrightarrow> fst (getInstance reg p) = home p"
    by blast+
  from Cons.IH [OF s cs]
  have s': "single (perform_all reg acts ?q)"
    and h': "home (perform_all reg acts ?q) = home ?q"
    and m': "managers (perform_all reg acts ?q) (home ?q) = replay reg (home ?q) acts (managers ?q (home ?q))"
    and n': "static_instance (perform_all reg acts ?q) = None
               \<longleftrightarrow> static_instance ?q = None \<and> GetInstance \<notin> set acts"
    and r': "set (returned reg acts ?q) \<subseteq> (if GetInstance \<in> set acts then {home ?q} else {})"
    by blast+
  have r: "set (returned reg (act # acts) p) \<subseteq> (if GetInstance \<in> set (act # acts) then {home p} else {})"
  proof (cases "act = GetInstance")
    case True
    with g r' h show ?thesis by (auto split: if_splits)
  next
    case False
    then have "returned reg (act # acts) p = returned reg acts ?q"
      by (cases act) simp_all
    with False r' h show ?thesis by (auto split: if_splits)
  qed
  from s' h' h m' m n' n have
    "single (perform_all reg (act # acts) p)"
    "home (perform_all reg (act # acts) p) = home p"
    "managers (perform_all reg (act # acts) p) (home p) = replay reg (home p) (act # acts) (managers p (home p))"
    "static_instance (perform_all reg (act # acts) p) = None
       \<longleftrightarrow> static_instance p = None \<and> GetInstance \<notin> set (act # acts)"
    by auto
  with r show ?case by blast
qed

lemma single_dom: "single p \<Longrightarrow> static_instance p = Some a \<Longrightarrow> dom (managers p) = {a}"
  by (simp add: single_def)

lemma single_none: "single p \<Longrightarrow> static_instance p = None \<Longrightarrow> managers p = Map.empty"
  by (simp add: single_def)

text \<open>
  Why the deleted copy constructor matters: were it available, a program could make a
  second manager.
\<close>

lemma copy_would_duplicate:
  "\<not> compiles (CopyConstruct 0)"
  "dom (managers (perform_all None [GetInstance, CopyConstruct 0] startup)) = {0, 1}"
  by (auto simp: compiles_def getInstance_def startup_def Let_def)

lemma sample_actions_compile: "list_all compiles sample_actions"
  by (simp add: sample_actions_def compiles_def)

subsection \<open>The lifecycle\<close>

lemma transition_stage:
  "transition st outcome = Some (st', why) \<Longrightarrow>
     \<not> terminal st \<and> stage st \<le> stage st'
     \<and> (st' = st \<or> stage st' = Suc (stage st) \<or> st' = Failed)"
  by (cases st; cases outcome) auto

text \<open>What one request does to a job that is in the store.\<close>

lemma serve_job:
  assumes "store jobId = Some j"
  shows "\<exists>j'. serve r store jobId = Some j'
           \<and> stage (status j) \<le> stage (status j')
           \<and> (status j' = status j \<or> stage (status j') = Suc (stage (status j))
                \<or> status j' = Failed \<or> status j' = Aborted)
           \<and> (terminal (status j) \<longrightarrow> status j' = status j)"
proof (cases r)
  case (Submit i)
  with assms show ?thesis
    by (cases "store i") (auto simp: serve_def submit_def)
next
  case (Abort i)
  with assms show ?thesis
    by (cases "store i"; cases "status j") (auto simp: serve_def abort_def)
next
  case (Drive i outcome)
  show ?thesis
  proof (cases "i = jobId")
    case False
    with Drive assms show ?thesis
      by (auto simp: serve_def drive_def split: option.splits)
  next
    case True
    show ?thesis
    proof (cases "transition (status j) outcome")
      case None
      with Drive True assms show ?thesis
        by (simp add: serve_def drive_def)
    next
      case (Some a)
      obtain st why where a: "a = (st, why)" by (cases a)
      from transition_stage [OF Some [unfolded a]] Some a Drive True assms
      show ?thesis by (auto simp: serve_def drive_def)
    qed
  qed
qed

text \<open>What one request does for a job that is not in the store.\<close>

lemma serve_absent:
  assumes "store jobId = None"
  shows "serve r store jobId = (if r = Submit jobId then Some (staged\<lparr>status := Resolving\<rparr>) else None)"
proof (cases r)
  case (Submit i)
  with assms show ?thesis
    by (cases "store i") (auto simp: serve_def submit_def)
next
  case (Abort i)
  with assms show ?thesis
    by (cases "store i") (auto simp: serve_def abort_def)
next
  case (Drive i outcome)
  with assms show ?thesis
    by (cases "store i") (auto simp: serve_def drive_def split: option.splits prod.splits)
qed

lemma serve_all_job:
  assumes "store jobId = Some j"
  shows "\<exists>j'. serve_all rs store jobId = Some j' \<and> stage (status j) \<le> stage (status j')"
  using assms
proof (induction rs arbitrary: store j)
  case Nil
  then show ?case by simp
next
  case (Cons r rs)
  from serve_job [where store = store and jobId = jobId and r = r, OF Cons.prems] obtain j1 where
    j1: "serve r store jobId = Some j1" and s1: "stage (status j) \<le> stage (status j1)"
    by blast
  from Cons.IH [where store = "serve r store", OF j1] obtain j' where
    "serve_all rs (serve r store) jobId = Some j'" and "stage (status j1) \<le> stage (status j')"
    by blast
  with s1 show ?case by auto
qed

lemma sample_submitted:
  "serve (Submit ''job-7'') Map.empty ''job-7'' = Some (staged\<lparr>status := Resolving\<rparr>)"
  by (simp add: serve_def submit_def)

section \<open>Claims about demangling\<close>

text \<open>
  Claim C10. \<^verbatim>\<open>demangle\<close> always returns a string and reports no error: built with a
  GNU toolchain it returns the demangled form exactly when the library's status is 0 and
  the name it was given otherwise; built with any other toolchain it returns the name it
  was given. The library is assumed to keep its documented contract (status 0 comes with
  a result that is not null).
\<close>

theorem demangle_total:
  assumes "abi_conforming cxa"
  shows "demangle tc cxa name =
           Inr (case (tc, cxa name) of
                  (GNUG, (Some s, st)) \<Rightarrow> if st = 0 then s else name
                | _ \<Rightarrow> name)"
proof (cases tc)
  case Other
  then show ?thesis by simp
next
  case GNUG
  obtain res st where r: "cxa name = (res, st)" by (cases "cxa name")
  show ?thesis
  proof (cases "st = 0")
    case True
    with assms r have "res \<noteq> None"
      unfolding abi_conforming_def by (metis fst_conv snd_conv)
    then obtain s where "res = Some s" by auto
    with GNUG r True show ?thesis by (simp add: demangle_def)
  next
    case False
    with GNUG r show ?thesis by (cases res) (simp_all add: demangle_def)
  qed
qed

theorem demangle_total_witness:
  "abi_conforming sample_cxa
   \<and> demangle GNUG sample_cxa ''12AckleyTarget'' = Inr ''AckleyTarget''
   \<and> demangle GNUG sample_cxa ''AckleyTarget'' = Inr ''AckleyTarget''
   \<and> demangle Other sample_cxa ''12AckleyTarget'' = Inr ''12AckleyTarget''"
  using demangle_total [OF sample_cxa_conforming, of GNUG "''12AckleyTarget''"]
    demangle_total [OF sample_cxa_conforming, of GNUG "''AckleyTarget''"]
    demangle_total [OF sample_cxa_conforming, of Other "''12AckleyTarget''"]
    sample_cxa_conforming
  by (simp add: sample_cxa_def)

text \<open>
  Claim C6, as stated, fails: canonicalization does not happen on every platform. Built
  without a GNU toolchain, \<^verbatim>\<open>demangle\<close> hands the encoded name back, so one and the same
  encoding of a type gives two different lookup keys on the two kinds of toolchain.
\<close>

theorem canonicalization_skipped_counterexample:
  "sample_cxa ''12AckleyTarget'' = (Some ''AckleyTarget'', 0)
   \<and> demangle Other sample_cxa ''12AckleyTarget'' = Inr ''12AckleyTarget''
   \<and> demangle GNUG sample_cxa ''12AckleyTarget'' = Inr ''AckleyTarget''
   \<and> demangle Other sample_cxa ''12AckleyTarget'' \<noteq> demangle GNUG sample_cxa ''12AckleyTarget''"
  by (simp add: demangle_def sample_cxa_def)

text \<open>
  Claim C6, amended. Every resolution passes the type name of the object behind the
  handle through \<^verbatim>\<open>demangle\<close>. Built with a GNU toolchain, the lookup key is the
  demangled string whenever the library succeeds and the raw name when it fails; built
  with any other toolchain, the lookup key is always the raw name.
\<close>

theorem lookup_key_demangled_on_gnu:
  assumes "target job = Some t" and "optimization job = Some opt"
    and "tn = typeid_name ds (typeid ds (target_type ds) t)"
    and "sn = typeid_name ds (typeid ds (optimization_type ds) opt)"
  shows "getTargetClassFile tc cxa ds job = demangle tc cxa tn
       \<and> getOptClassFile tc cxa ds job = demangle tc cxa sn
       \<and> (cxa tn = (Some canon, 0) \<longrightarrow> getTargetClassFile GNUG cxa ds job = Inr canon)
       \<and> (cxa sn = (Some canon', 0) \<longrightarrow> getOptClassFile GNUG cxa ds job = Inr canon')
       \<and> (snd (cxa tn) \<noteq> 0 \<longrightarrow> getTargetClassFile GNUG cxa ds job = Inr tn)
       \<and> (snd (cxa sn) \<noteq> 0 \<longrightarrow> getOptClassFile GNUG cxa ds job = Inr sn)
       \<and> getTargetClassFile Other cxa ds job = Inr tn
       \<and> getOptClassFile Other cxa ds job = Inr sn"
  using assms
  by (simp add: getTargetClassFile_def getOptClassFile_def type_def demangle_GNUG_ok
      demangle_GNUG_failed)

theorem lookup_key_demangled_on_gnu_witness:
  "getTargetClassFile GNUG sample_cxa sample_decls sample_job = Inr ''AckleyTarget''
   \<and> getOptClassFile GNUG sample_cxa sample_decls sample_job = Inr ''ClassicSA''
   \<and> getTargetClassFile Other sample_cxa sample_decls sample_job = Inr ''12AckleyTarget''
   \<and> getOptClassFile Other sample_cxa sample_decls sample_job = Inr ''9ClassicSA''
   \<and> getTargetClassFile GNUG (\<lambda>n. (None, -2)) sample_decls sample_job = Inr ''12AckleyTarget''"
proof -
  have t: "target sample_job = Some \<lparr>most_derived = AckleyTarget, members = 0\<rparr>"
    and s: "optimization sample_job = Some \<lparr>most_derived = ClassicSA, members = 0\<rparr>"
    by (simp_all add: sample_job_def)
  have tn: "''12AckleyTarget'' = typeid_name sample_decls
      (typeid sample_decls (target_type sample_decls) \<lparr>most_derived = AckleyTarget, members = 0::nat\<rparr>)"
    and sn: "''9ClassicSA'' = typeid_name sample_decls
      (typeid sample_decls (optimization_type sample_decls) \<lparr>most_derived = ClassicSA, members = 0::nat\<rparr>)"
    by (simp_all add: sample_decls_def sample_name_def typeid_def)
  note key = lookup_key_demangled_on_gnu [OF t s tn sn]
  have a: "sample_cxa ''12AckleyTarget'' = (Some ''AckleyTarget'', 0)"
    and b: "sample_cxa ''9ClassicSA'' = (Some ''ClassicSA'', 0)"
    by (simp_all add: sample_cxa_def)
  from key [where cxa = sample_cxa and canon = "''AckleyTarget''" and canon' = "''ClassicSA''"] a b
  have "getTargetClassFile GNUG sample_cxa sample_decls sample_job = Inr ''AckleyTarget''"
    and "getOptClassFile GNUG sample_cxa sample_decls sample_job = Inr ''ClassicSA''"
    and "getTargetClassFile Other sample_cxa sample_decls sample_job = Inr ''12AckleyTarget''"
    and "getOptClassFile Other sample_cxa sample_decls sample_job = Inr ''9ClassicSA''"
    by blast+
  moreover from key [where cxa = "\<lambda>n. (None, -2)" and tc = Other]
  have "getTargetClassFile GNUG (\<lambda>n. (None, -2)) sample_decls sample_job = Inr ''12AckleyTarget''"
    by simp
  ultimately show ?thesis by blast
qed

section \<open>Claims about the class files of a job\<close>

text \<open>
  Claim C7. The class file of the target and of the strategy is computed from the most
  derived class of the object the handle points to, when the declared pointee type is
  polymorphic: the result is the demangled type name of that class, and it stays the
  same when the declared type of the handle is replaced by another polymorphic class.
\<close>

theorem class_file_from_dynamic_type:
  assumes "polymorphic ds (target_type ds)" and "polymorphic ds (optimization_type ds)"
    and "target job = Some t" and "optimization job = Some opt"
  shows "getTargetClassFile tc cxa ds job = demangle tc cxa (typeid_name ds (most_derived t))
       \<and> getOptClassFile tc cxa ds job = demangle tc cxa (typeid_name ds (most_derived opt))
       \<and> (polymorphic ds T' \<longrightarrow>
            getTargetClassFile tc cxa (ds\<lparr>target_type := T'\<rparr>) job = getTargetClassFile tc cxa ds job)
       \<and> (polymorphic ds S' \<longrightarrow>
            getOptClassFile tc cxa (ds\<lparr>optimization_type := S'\<rparr>) job = getOptClassFile tc cxa ds job)"
  using assms
  by (simp add: getTargetClassFile_def getOptClassFile_def type_def typeid_def)

theorem class_file_from_dynamic_type_witness:
  "polymorphic sample_decls (target_type sample_decls)
   \<and> polymorphic sample_decls (optimization_type sample_decls)
   \<and> target_type sample_decls = Target
   \<and> getTargetClassFile GNUG sample_cxa sample_decls sample_job = Inr ''AckleyTarget''
   \<and> getOptClassFile GNUG sample_cxa sample_decls sample_job = Inr ''ClassicSA''
   \<and> getTargetClassFile GNUG sample_cxa (sample_decls\<lparr>target_type := AckleyTarget\<rparr>) sample_job
       = getTargetClassFile GNUG sample_cxa sample_decls sample_job"
proof -
  have p: "polymorphic sample_decls (target_type sample_decls)"
    and q: "polymorphic sample_decls (optimization_type sample_decls)"
    and r: "polymorphic sample_decls AckleyTarget"
    by (simp_all add: sample_decls_def)
  have t: "target sample_job = Some \<lparr>most_derived = AckleyTarget, members = 0\<rparr>"
    and s: "optimization sample_job = Some \<lparr>most_derived = ClassicSA, members = 0\<rparr>"
    by (simp_all add: sample_job_def)
  from class_file_from_dynamic_type [OF p q t s, of GNUG sample_cxa AckleyTarget] r
  have "getTargetClassFile GNUG sample_cxa sample_decls sample_job
          = demangle GNUG sample_cxa (typeid_name sample_decls AckleyTarget)"
    and "getOptClassFile GNUG sample_cxa sample_decls sample_job
          = demangle GNUG sample_cxa (typeid_name sample_decls ClassicSA)"
    and "getTargetClassFile GNUG sample_cxa (sample_decls\<lparr>target_type := AckleyTarget\<rparr>) sample_job
          = getTargetClassFile GNUG sample_cxa sample_decls sample_job"
    by simp_all
  moreover have "demangle GNUG sample_cxa (typeid_name sample_decls AckleyTarget) = Inr ''AckleyTarget''"
    and "demangle GNUG sample_cxa (typeid_name sample_decls ClassicSA) = Inr ''ClassicSA''"
    by (simp_all add: sample_decls_def sample_name_def demangle_def sample_cxa_def)
  moreover have "target_type sample_decls = Target" by (simp add: sample_decls_def)
  ultimately show ?thesis using p q by simp
qed

text \<open>
  Claim C8. The pair of class files is a function of the runtime types of the target
  and the strategy: two jobs whose targets have the same most derived class and whose
  strategies have the same most derived class get the same class files, whatever else
  the jobs and their objects hold.
\<close>

theorem class_files_same_for_same_runtime_types:
  assumes "target job = Some t" and "target job' = Some t'"
    and "optimization job = Some opt" and "optimization job' = Some opt'"
    and "most_derived t = most_derived t'" and "most_derived opt = most_derived opt'"
  shows "getTargetClassFile tc cxa ds job = getTargetClassFile tc cxa ds job'
       \<and> getOptClassFile tc cxa ds job = getOptClassFile tc cxa ds job'"
  using assms
  by (simp add: getTargetClassFile_def getOptClassFile_def type_def typeid_def)

theorem class_files_same_for_same_runtime_types_witness:
  "sample_job \<noteq> sample_job2
   \<and> getTargetClassFile GNUG sample_cxa sample_decls sample_job
       = getTargetClassFile GNUG sample_cxa sample_decls sample_job2
   \<and> getOptClassFile GNUG sample_cxa sample_decls sample_job
       = getOptClassFile GNUG sample_cxa sample_decls sample_job2"
proof -
  have "target sample_job = Some \<lparr>most_derived = AckleyTarget, members = 0\<rparr>"
    and "target sample_job2 = Some \<lparr>most_derived = AckleyTarget, members = 7\<rparr>"
    and "optimization sample_job = Some \<lparr>most_derived = ClassicSA, members = 0\<rparr>"
    and "optimization sample_job2 = Some \<lparr>most_derived = ClassicSA, members = 9\<rparr>"
    by (simp_all add: sample_job_def sample_job2_def)
  from class_files_same_for_same_runtime_types [OF this, of GNUG sample_cxa sample_decls]
  have "getTargetClassFile GNUG sample_cxa sample_decls sample_job
          = getTargetClassFile GNUG sample_cxa sample_decls sample_job2
      \<and> getOptClassFile GNUG sample_cxa sample_decls sample_job
          = getOptClassFile GNUG sample_cxa sample_decls sample_job2"
    by simp
  moreover have "sample_job \<noteq> sample_job2" by (simp add: sample_job_def sample_job2_def)
  ultimately show ?thesis by simp
qed

section \<open>The claim about the single manager\<close>

text \<open>
  Claim C9. A call of \<^verbatim>\<open>getInstance\<close> on a process whose local static is initialised
  returns the reference the static holds and changes nothing. A program that compiles
  contains no construction, no copy construction and no copy assignment of a manager,
  since the header declares the first private and deletes the other two. For every such
  program, run from the start of the process: the managers that exist are exactly the
  one the program expects behind its reference, constructed by the first call and
  carrying every change made through the reference since, whatever calls of
  \<^verbatim>\<open>getInstance\<close> came in between; every call returns the reference to it; no manager
  exists before the first call and exactly one from it on.
\<close>

theorem getInstance_single_instance:
  assumes "list_all compiles acts"
  shows "(static_instance p = Some a \<longrightarrow> getInstance reg p = (a, p))
       \<and> managers (perform_all reg acts startup)
           = (case replay reg 0 acts None of None \<Rightarrow> Map.empty | Some m \<Rightarrow> [0 \<mapsto> m])
       \<and> card (dom (managers (perform_all reg acts startup)))
           = (if GetInstance \<in> set acts then 1 else 0)
       \<and> (\<forall>a \<in> set (returned reg acts startup).
             static_instance (perform_all reg acts startup) = Some a
           \<and> dom (managers (perform_all reg acts startup)) = {a})
       \<and> (Construct \<notin> set acts \<and> CopyConstruct b \<notin> set acts \<and> CopyAssign b c \<notin> set acts)"
proof -
  let ?P = "perform_all reg acts startup"
  have nocopy: "Construct \<notin> set acts \<and> CopyConstruct b \<notin> set acts \<and> CopyAssign b c \<notin> set acts"
  proof (intro conjI notI)
    assume "Construct \<in> set acts"
    with assms have "compiles (Construct :: ('a, 'b) action)" by (simp add: list_all_iff)
    then show False by (simp add: compiles_def)
  next
    assume "CopyConstruct b \<in> set acts"
    with assms have "compiles (CopyConstruct b :: ('a, 'b) action)" by (simp add: list_all_iff)
    then show False by (simp add: compiles_def)
  next
    assume "CopyAssign b c \<in> set acts"
    with assms have "compiles (CopyAssign b c :: ('a, 'b) action)" by (simp add: list_all_iff)
    then show False by (simp add: compiles_def)
  qed
  note steps = perform_all_steps [OF single_startup assms, where reg = reg,
      unfolded home_startup startup_static]
  from steps
  have s: "single ?P" and h: "home ?P = 0"
    and m: "managers ?P 0 = replay reg 0 acts None"
    and n: "static_instance ?P = None \<longleftrightarrow> GetInstance \<notin> set acts"
    and r: "set (returned reg acts startup) \<subseteq> (if GetInstance \<in> set acts then {0} else {})"
    by simp_all
  have idem: "static_instance p = Some a \<longrightarrow> getInstance reg p = (a, p)"
    by (simp add: getInstance_again)
  show ?thesis
  proof (cases "GetInstance \<in> set acts")
    case False
    with n have "static_instance ?P = None" by simp
    from single_none [OF s this] have e: "managers ?P = Map.empty" .
    with m have "replay reg 0 acts None = None" by simp
    with e False r idem nocopy show ?thesis by simp
  next
    case True
    with n obtain b where b: "static_instance ?P = Some b" by auto
    with h have "b = 0" by (simp add: home_def)
    with b have st: "static_instance ?P = Some 0" by simp
    from single_dom [OF s st] have d: "dom (managers ?P) = {0}" .
    then obtain x where x: "managers ?P 0 = Some x" by blast
    have "managers ?P = [0 \<mapsto> x]"
    proof
      fix k show "managers ?P k = [0 \<mapsto> x] k"
      proof (cases "k = 0")
        case True
        with x show ?thesis by simp
      next
        case False
        with d have "k \<notin> dom (managers ?P)" by simp
        then have "managers ?P k = None" by (simp add: domIff)
        with False show ?thesis by simp
      qed
    qed
    moreover from x m have "replay reg 0 acts None = Some x" by simp
    ultimately have eq: "managers ?P
        = (case replay reg 0 acts None of None \<Rightarrow> Map.empty | Some m \<Rightarrow> [0 \<mapsto> m])"
      by simp
    from r True have sub: "set (returned reg acts startup) \<subseteq> {0}"
      by (simp only: if_True)
    have ret: "\<forall>a \<in> set (returned reg acts startup).
        static_instance ?P = Some a \<and> dom (managers ?P) = {a}"
    proof
      fix a assume "a \<in> set (returned reg acts startup)"
      with sub have "a = 0" by blast
      with st d show "static_instance ?P = Some a \<and> dom (managers ?P) = {a}"
        by simp
    qed
    from d have "card (dom (managers ?P)) = 1" by simp
    with True have cd: "card (dom (managers ?P)) = (if GetInstance \<in> set acts then 1 else 0)"
      by (simp only: if_True)
    show ?thesis
      using nocopy by (intro conjI) (rule idem, rule eq, rule cd, rule ret, simp_all)
  qed
qed

theorem getInstance_single_instance_witness:
  "list_all compiles sample_actions
   \<and> returned None sample_actions startup = [0, 0]
   \<and> card (dom (managers (perform_all None sample_actions startup))) = 1
   \<and> static_instance (perform_all None sample_actions startup) = Some 0
   \<and> managers (perform_all None sample_actions startup)
       = [0 \<mapsto> (construct None)\<lparr>jobCache := [''job-7'' \<mapsto> sample_job]\<rparr>]
   \<and> getInstance None (perform_all None sample_actions startup)
       = (0, perform_all None sample_actions startup)"
proof -
  let ?p = "perform_all None sample_actions startup"
  have r: "returned None sample_actions startup = [0, 0]"
    by (simp add: sample_actions_def getInstance_def startup_def Let_def)
  have z: "0 \<in> set (returned None sample_actions startup)"
    unfolding r by simp
  have g: "GetInstance \<in> set sample_actions"
    by (simp add: sample_actions_def)
  have e: "replay None 0 sample_actions None
      = Some ((construct None)\<lparr>jobCache := [''job-7'' \<mapsto> sample_job]\<rparr>)"
    by (simp add: sample_actions_def construct_def)
  note w = getInstance_single_instance [OF sample_actions_compile,
      where reg = None and p = ?p and a = 0]
  have i: "static_instance ?p = Some 0 \<longrightarrow> getInstance None ?p = (0, ?p)"
    by (rule conjunct1 [OF w])
  have k: "managers ?p
      = (case replay None 0 sample_actions None of None \<Rightarrow> Map.empty | Some m \<Rightarrow> [0 \<mapsto> m])"
    by (rule conjunct1 [OF conjunct2 [OF w]])
  have c: "card (dom (managers ?p)) = (if GetInstance \<in> set sample_actions then 1 else 0)"
    by (rule conjunct1 [OF conjunct2 [OF conjunct2 [OF w]]])
  have b: "\<forall>a \<in> set (returned None sample_actions startup).
              static_instance ?p = Some a \<and> dom (managers ?p) = {a}"
    by (rule conjunct1 [OF conjunct2 [OF conjunct2 [OF conjunct2 [OF w]]]])
  from c have x: "card (dom (managers ?p)) = 1" by (simp only: g if_True)
  have y: "static_instance ?p = Some 0" by (rule conjunct1 [OF bspec [OF b z]])
  from i y have v: "getInstance None ?p = (0, ?p)" by (rule mp)
  from k have u: "managers ?p = [0 \<mapsto> (construct None)\<lparr>jobCache := [''job-7'' \<mapsto> sample_job]\<rparr>]"
    by (simp only: e option.case)
  show ?thesis
    by (intro conjI) (rule sample_actions_compile, rule r, rule x, rule y, rule u, rule v)
qed

section \<open>The claim about the lifecycle\<close>

text \<open>
  Claim C1. The status of a job changes only along the edges of section 4.5. A job enters
  the store in \<^verbatim>\<open>Resolving\<close>, the successor of \<^verbatim>\<open>Pending\<close>. Whatever request is
  served, the status of a job in the store stays, or moves to the next state of
  \<^verbatim>\<open>Resolving -> Provisioning -> Deploying -> Running -> Completed\<close>, or becomes
  \<^verbatim>\<open>Failed\<close> or \<^verbatim>\<open>Aborted\<close>; it never moves backward, never leaves a terminal
  state, and never goes from \<^verbatim>\<open>Resolving\<close> directly to \<^verbatim>\<open>Running\<close>. Over any
  sequence of requests the position of the status never decreases. The section has no
  retry edge, so there is no backward transition at all.
\<close>

theorem status_follows_lifecycle:
  "(store jobId = None \<and> serve r store jobId = Some j' \<longrightarrow> status j' = Resolving)
   \<and> (store jobId = Some j \<longrightarrow>
        (\<exists>j'. serve r store jobId = Some j'
           \<and> stage (status j) \<le> stage (status j')
           \<and> (status j' = status j \<or> stage (status j') = Suc (stage (status j))
                \<or> status j' = Failed \<or> status j' = Aborted)
           \<and> (terminal (status j) \<longrightarrow> status j' = status j)
           \<and> \<not> (status j = Resolving \<and> status j' = Running)))
   \<and> (store jobId = Some j \<longrightarrow>
        (\<exists>j'. serve_all rs store jobId = Some j' \<and> stage (status j) \<le> stage (status j')))"
proof (intro conjI impI)
  assume "store jobId = None \<and> serve r store jobId = Some j'"
  with serve_absent [where store = store and jobId = jobId and r = r] show "status j' = Resolving"
    by (auto simp: staged_def split: if_splits)
next
  assume a: "store jobId = Some j"
  from serve_job [where store = store and jobId = jobId and r = r, OF a] obtain j1 where
    "serve r store jobId = Some j1" "stage (status j) \<le> stage (status j1)"
    "status j1 = status j \<or> stage (status j1) = Suc (stage (status j))
       \<or> status j1 = Failed \<or> status j1 = Aborted"
    "terminal (status j) \<longrightarrow> status j1 = status j"
    by blast
  moreover from this have "\<not> (status j = Resolving \<and> status j1 = Running)"
    by auto
  ultimately show "\<exists>j'. serve r store jobId = Some j'
           \<and> stage (status j) \<le> stage (status j')
           \<and> (status j' = status j \<or> stage (status j') = Suc (stage (status j))
                \<or> status j' = Failed \<or> status j' = Aborted)
           \<and> (terminal (status j) \<longrightarrow> status j' = status j)
           \<and> \<not> (status j = Resolving \<and> status j' = Running)"
    by blast
next
  assume a: "store jobId = Some j"
  from serve_all_job [where store = store and jobId = jobId and rs = rs, OF a]
  show "\<exists>j'. serve_all rs store jobId = Some j' \<and> stage (status j) \<le> stage (status j')"
    by blast
qed

theorem status_follows_lifecycle_witness:
  "serve (Submit ''job-7'') Map.empty ''job-7'' = Some (staged\<lparr>status := Resolving\<rparr>)
   \<and> (\<exists>j'. serve (Drive ''job-7'' ArtifactResolved) (serve (Submit ''job-7'') Map.empty) ''job-7''
             = Some j'
          \<and> status j' = Provisioning
          \<and> stage Resolving \<le> stage (status j'))
   \<and> (\<exists>j'. serve_all sample_later (serve (Submit ''job-7'') Map.empty) ''job-7'' = Some j'
          \<and> status j' = Aborted
          \<and> stage Resolving \<le> stage (status j'))"
proof -
  let ?s = "serve (Submit ''job-7'') Map.empty"
  let ?j = "staged\<lparr>status := Resolving\<rparr>"
  note w = status_follows_lifecycle [where store = ?s and jobId = "''job-7''" and j = ?j
      and r = "Drive ''job-7'' ArtifactResolved" and rs = sample_later]
  from w sample_submitted obtain j1 where
    j1: "serve (Drive ''job-7'' ArtifactResolved) ?s ''job-7'' = Some j1"
    and s1: "stage (status ?j) \<le> stage (status j1)"
    by blast
  have "serve (Drive ''job-7'' ArtifactResolved) ?s ''job-7''
          = Some (staged\<lparr>status := Provisioning\<rparr>)"
    by (simp add: serve_def submit_def drive_def staged_def)
  with j1 have p1: "status j1 = Provisioning" by auto
  from w sample_submitted obtain j2 where
    j2: "serve_all sample_later ?s ''job-7'' = Some j2"
    and s2: "stage (status ?j) \<le> stage (status j2)"
    by blast
  have "serve_all sample_later ?s ''job-7'' = Some (staged\<lparr>status := Aborted\<rparr>)"
    by (simp add: sample_later_def serve_def submit_def drive_def abort_def staged_def)
  with j2 have p2: "status j2 = Aborted" by auto
  from s1 s2 have "stage Resolving \<le> stage (status j1)" "stage Resolving \<le> stage (status j2)"
    by simp_all
  with sample_submitted j1 p1 j2 p2 show ?thesis by blast
qed

end
